theory Spec2Isabelle
  imports Main
begin

section \<open>Hyperlane auth-service: identity reconciler and session validator\<close>

text \<open>
  A shallow embedding of \<^verbatim>\<open>apps/auth-service/src/services/identity.service.ts\<close>
  (\<^verbatim>\<open>IdentityService.syncUser\<close>, \<^verbatim>\<open>IdentityService.deleteUser\<close>) and of
  \<^verbatim>\<open>apps/auth-service/src/grpc/auth.handler.ts\<close> (\<^verbatim>\<open>validateSession\<close>).

  Every \<^verbatim>\<open>await\<close> on an external collaborator (Redis, Prisma, Clerk) is a function that
  takes the world and returns the new world together with either the value the promise
  resolves to (\<open>Inr\<close>) or the error it rejects with (\<open>Inl\<close>). A \<^verbatim>\<open>throw\<close> is \<open>Inl\<close>,
  a \<^verbatim>\<open>try\<close>/\<^verbatim>\<open>catch\<close> is a case distinction on the result of the guarded block.
  Logging is left out.
\<close>

subsection \<open>JavaScript strings\<close>

text \<open>
  A string is the list of its code units. \<^verbatim>\<open>if (s)\<close> holds for a non-empty string;
  \<^verbatim>\<open>if (x)\<close> for \<^verbatim>\<open>string | null | undefined\<close> holds for a present, non-empty one.
\<close>

definition truthy :: "string \<Rightarrow> bool" where
  "truthy s = (s \<noteq> [])"

definition truthyOpt :: "string option \<Rightarrow> bool" where
  "truthyOpt x = (case x of None \<Rightarrow> False | Some s \<Rightarrow> truthy s)"

text \<open>\<^verbatim>\<open>s.startsWith(p)\<close>.\<close>

definition startsWith :: "string \<Rightarrow> string \<Rightarrow> bool" where
  "startsWith s p = (take (length p) s = p)"

text \<open>\<^verbatim>\<open>s.includes(sub)\<close>: \<open>sub\<close> occurs in \<open>s\<close> at some position.\<close>

fun includesStr :: "string \<Rightarrow> string \<Rightarrow> bool" where
  "includesStr [] sub = (sub = [])"
| "includesStr (c # cs) sub = (startsWith (c # cs) sub \<or> includesStr cs sub)"

text \<open>
  \<^verbatim>\<open>s.slice(-n)\<close>: the last \<open>n\<close> code units, and the whole string when it has fewer
  (the truncating subtraction of \<open>nat\<close> is what JavaScript's clamping to 0 does).
\<close>

definition sliceLast :: "nat \<Rightarrow> string \<Rightarrow> string" where
  "sliceLast n s = drop (length s - n) s"

text \<open>\<^verbatim>\<open>s.split(sep)\<close> for a one-character separator; \<^verbatim>\<open>"".split(":")\<close> is \<^verbatim>\<open>[""]\<close>.\<close>

fun split :: "char \<Rightarrow> string \<Rightarrow> string list" where
  "split sep [] = [[]]"
| "split sep (c # cs) =
     (if c = sep then [] # split sep cs
      else (case split sep cs of [] \<Rightarrow> [[c]] | p # ps \<Rightarrow> (c # p) # ps))"

text \<open>\<^verbatim>\<open>parts[i]\<close>: \<^verbatim>\<open>undefined\<close> (here \<open>None\<close>) past the end of the array.\<close>

definition at :: "'a list \<Rightarrow> nat \<Rightarrow> 'a option" where
  "at xs i = (if i < length xs then Some (xs ! i) else None)"

subsection \<open>Errors\<close>

text \<open>
  The handler throws \<^verbatim>\<open>ConnectError(message, code)\<close> with four codes. Everything else
  that can be thrown (by ioredis, Prisma, the Clerk SDK, the protobuf runtime) is a
  JavaScript error with a \<^verbatim>\<open>message\<close> and, for Prisma's known request errors,
  a \<^verbatim>\<open>code\<close> such as \<^verbatim>\<open>P2025\<close> (record not found).
\<close>

datatype Code = InvalidArgument | FailedPrecondition | PermissionDenied | Internal

datatype error =
    ConnectError string Code
  | JsError "string option" string

fun codeToString :: "Code \<Rightarrow> string" where
  "codeToString InvalidArgument = ''invalid_argument''"
| "codeToString FailedPrecondition = ''failed_precondition''"
| "codeToString PermissionDenied = ''permission_denied''"
| "codeToString Internal = ''internal''"

text \<open>
  \<^verbatim>\<open>err.message\<close>. The constructor of \<^verbatim>\<open>ConnectError\<close> (package
  \<^verbatim>\<open>@connectrpc/connect\<close>) stores the message prefixed with the code in brackets; the
  text given to the constructor is \<^verbatim>\<open>rawMessage\<close>.
\<close>

fun rawMessage :: "error \<Rightarrow> string" where
  "rawMessage (ConnectError m c) = m"
| "rawMessage (JsError c m) = m"

fun message :: "error \<Rightarrow> string" where
  "message (ConnectError m c) =
     (if m = [] then ''['' @ codeToString c @ '']''
      else ''['' @ codeToString c @ ''] '' @ m)"
| "message (JsError c m) = m"

text \<open>\<^verbatim>\<open>(error as any).code\<close> compared with a string: a \<^verbatim>\<open>ConnectError\<close> carries a number.\<close>

fun errorCode :: "error \<Rightarrow> string option" where
  "errorCode (ConnectError m c) = None"
| "errorCode (JsError c m) = c"

subsection \<open>Data model\<close>

text \<open>
  The row of \<^verbatim>\<open>prisma.user\<close>. Timestamps are milliseconds since the epoch.
  The field \<^verbatim>\<open>id\<close> of the source is \<open>user_id\<close> here.
\<close>

record user =
  user_id :: string
  clerkId :: string
  email :: string
  username :: string
  avatarUrl :: "string option"
  createdAt :: nat
  updatedAt :: nat
  deletedAt :: "nat option"

text \<open>\<^verbatim>\<open>LaneRole\<close> of the Prisma client: only \<^verbatim>\<open>BANNED\<close> is named by the source.\<close>

datatype LaneRole = BANNED | OtherRole string

text \<open>\<^verbatim>\<open>SyncUserDto\<close>.\<close>

record SyncUserDto =
  dto_clerkId :: string
  dto_email :: string
  dto_username :: string
  dto_avatarUrl :: "string option"
  eventId :: "string option"

text \<open>\<^verbatim>\<open>ValidateSessionRequest\<close>: an absent proto3 string field reads as the empty string.\<close>

record ValidateSessionRequest =
  token :: string
  requiredScope :: string

text \<open>\<^verbatim>\<open>ValidateSessionResponse\<close>.\<close>

record ValidateSessionResponse =
  valid :: bool
  userId :: string
  resp_username :: string
  resp_avatarUrl :: string
  roles :: "string list"
  extraClaims :: "(string \<times> string) list"

text \<open>The part of Clerk's user profile that the handler reads.\<close>

record ClerkUser =
  primaryEmailAddressId :: "string option"
  emailAddresses :: "(string \<times> string) list"
  clerk_username :: "string option"
  imageUrl :: string

subsection \<open>The world: stores, clock, faults, trace\<close>

text \<open>The external calls, as they appear in the trace of a run.\<close>

datatype call =
    RedisGet string
  | RedisSet string string nat
  | VerifyToken string
  | ClerkGetUser string
  | UserFindUnique string
  | UserFindUniqueOrThrow string
  | UserUpsert string
  | UserUpdate string
  | LaneMemberFindUnique string string

text \<open>The kinds of store operation that can be made to fail.\<close>

datatype op = OpRedisGet | OpRedisSet | OpUserRead | OpUserUpsert | OpUserUpdate | OpLaneRead

text \<open>
  \<^item> \<open>users\<close>: the user table, keyed by its unique column \<^verbatim>\<open>clerkId\<close>;
  \<^item> \<open>laneMembers\<close>: the membership table, keyed by \<^verbatim>\<open>(laneId, userId)\<close>;
  \<^item> \<open>kv\<close>: Redis, each entry with the instant (ms) at which it expires;
  \<^item> \<open>now\<close>: the clock, in ms;
  \<^item> \<open>idSeed\<close>: how many identifiers \<^verbatim>\<open>uuidv7()\<close> has handed out;
  \<^item> \<open>fault\<close>: for each kind of store operation, the error it rejects with, if any;
  \<^item> \<open>calls\<close>: the trace of external calls so far.
\<close>

record world =
  users :: "string \<rightharpoonup> user"
  laneMembers :: "(string \<times> string) \<rightharpoonup> LaneRole"
  kv :: "string \<rightharpoonup> (string \<times> nat)"
  now :: nat
  idSeed :: nat
  fault :: "op \<Rightarrow> error option"
  calls :: "call list"

text \<open>
  The collaborators that are functions of their argument: the token verifier and the
  profile query of Clerk, the JSON codec of the protobuf runtime, and \<^verbatim>\<open>uuidv7\<close>
  (the \<open>n\<close>-th identifier it hands out).
\<close>

record env =
  verifyToken :: "string \<Rightarrow> error + string"
  getUser :: "string \<Rightarrow> error + ClerkUser"
  toJsonString :: "ValidateSessionResponse \<Rightarrow> string"
  fromJsonString :: "string \<Rightarrow> error + ValidateSessionResponse"
  uuidv7 :: "nat \<Rightarrow> string"

definition logCall :: "call \<Rightarrow> world \<Rightarrow> world" where
  "logCall c w = w\<lparr>calls := calls w @ [c]\<rparr>"

subsection \<open>Redis\<close>

text \<open>The entry under a key that has not expired.\<close>

definition live :: "world \<Rightarrow> string \<Rightarrow> string option" where
  "live w k = (case kv w k of
                 None \<Rightarrow> None
               | Some (v, expiry) \<Rightarrow> if now w < expiry then Some v else None)"

text \<open>\<^verbatim>\<open>redis.get(key)\<close>.\<close>

definition redis_get :: "world \<Rightarrow> string \<Rightarrow> (error + string option) \<times> world" where
  "redis_get w k =
     (case fault w OpRedisGet of
        Some e \<Rightarrow> (Inl e, logCall (RedisGet k) w)
      | None \<Rightarrow> (Inr (live w k), logCall (RedisGet k) w))"

text \<open>\<^verbatim>\<open>redis.set(key, value, "EX", seconds)\<close>.\<close>

definition redis_set :: "world \<Rightarrow> string \<Rightarrow> string \<Rightarrow> nat \<Rightarrow> (error + unit) \<times> world" where
  "redis_set w k v seconds =
     (case fault w OpRedisSet of
        Some e \<Rightarrow> (Inl e, logCall (RedisSet k v seconds) w)
      | None \<Rightarrow>
          (Inr (), logCall (RedisSet k v seconds)
                     (w\<lparr>kv := (kv w)(k \<mapsto> (v, now w + seconds * 1000))\<rparr>)))"

subsection \<open>Prisma\<close>

text \<open>\<^verbatim>\<open>prisma.user.findUnique({ where: { clerkId } })\<close>.\<close>

definition user_findUnique :: "world \<Rightarrow> string \<Rightarrow> (error + user option) \<times> world" where
  "user_findUnique w cid =
     (case fault w OpUserRead of
        Some e \<Rightarrow> (Inl e, logCall (UserFindUnique cid) w)
      | None \<Rightarrow> (Inr (users w cid), logCall (UserFindUnique cid) w))"

text \<open>The error of Prisma for a required record that is not there.\<close>

definition notFound :: error where
  "notFound = JsError (Some ''P2025'') ''No record was found for a query.''"

text \<open>\<^verbatim>\<open>prisma.user.findUniqueOrThrow({ where: { clerkId } })\<close>.\<close>

definition user_findUniqueOrThrow :: "world \<Rightarrow> string \<Rightarrow> (error + user) \<times> world" where
  "user_findUniqueOrThrow w cid =
     (case fault w OpUserRead of
        Some e \<Rightarrow> (Inl e, logCall (UserFindUniqueOrThrow cid) w)
      | None \<Rightarrow>
          (case users w cid of
             None \<Rightarrow> (Inl notFound, logCall (UserFindUniqueOrThrow cid) w)
           | Some u \<Rightarrow> (Inr u, logCall (UserFindUniqueOrThrow cid) w)))"

text \<open>
  Modelled from the spec: the column defaults of the Prisma schema, which is not among
  the sources. A row created at time \<open>t\<close> has \<open>createdAt\<close> and \<open>updatedAt\<close> equal to
  \<open>t\<close> (\<open>createdAt\<close> is set once, \<open>updatedAt\<close> on every mutation) and \<open>deletedAt\<close> null
  (null when active). The other columns are those of the \<^verbatim>\<open>create\<close> argument of
  \<^verbatim>\<open>syncUser\<close>.
\<close>

definition createdUser ::
  "nat \<Rightarrow> string \<Rightarrow> string \<Rightarrow> string \<Rightarrow> string \<Rightarrow> string option \<Rightarrow> user" where
  "createdUser t newId cid em un av =
     \<lparr>user_id = newId, clerkId = cid, email = em, username = un, avatarUrl = av,
      createdAt = t, updatedAt = t, deletedAt = None\<rparr>"

text \<open>
  \<^verbatim>\<open>prisma.user.upsert({ where: { clerkId }, update: {...}, create: {...} })\<close> with the
  two argument objects of \<^verbatim>\<open>syncUser\<close>. The update branch writes the five columns
  of the \<^verbatim>\<open>update\<close> argument and no other; the create branch inserts the row of the
  \<^verbatim>\<open>create\<close> argument.
\<close>

definition user_upsert ::
  "world \<Rightarrow> string \<Rightarrow> string \<Rightarrow> string \<Rightarrow> string \<Rightarrow> string option \<Rightarrow> (error + user) \<times> world" where
  "user_upsert w newId cid em un av =
     (case fault w OpUserUpsert of
        Some e \<Rightarrow> (Inl e, logCall (UserUpsert cid) w)
      | None \<Rightarrow>
          (let u = (case users w cid of
                      Some old \<Rightarrow>
                        old\<lparr>email := em, username := un, avatarUrl := av,
                            updatedAt := now w, deletedAt := None\<rparr>
                    | None \<Rightarrow> createdUser (now w) newId cid em un av)
           in (Inr u, logCall (UserUpsert cid) (w\<lparr>users := (users w)(cid \<mapsto> u)\<rparr>))))"

text \<open>
  \<^verbatim>\<open>prisma.user.update({ where: { clerkId }, data: { deletedAt: new Date() } })\<close>:
  rejects with \<^verbatim>\<open>P2025\<close> when no row matches.
\<close>

definition user_update_deletedAt :: "world \<Rightarrow> string \<Rightarrow> (error + user) \<times> world" where
  "user_update_deletedAt w cid =
     (case fault w OpUserUpdate of
        Some e \<Rightarrow> (Inl e, logCall (UserUpdate cid) w)
      | None \<Rightarrow>
          (case users w cid of
             None \<Rightarrow> (Inl notFound, logCall (UserUpdate cid) w)
           | Some old \<Rightarrow>
               (let u = old\<lparr>deletedAt := Some (now w)\<rparr>
                in (Inr u, logCall (UserUpdate cid) (w\<lparr>users := (users w)(cid \<mapsto> u)\<rparr>)))))"

text \<open>\<^verbatim>\<open>prisma.laneMember.findUnique({ where: { laneId_userId: { laneId, userId } } })\<close>;
  the result is the \<^verbatim>\<open>role\<close> of the row found.\<close>

definition laneMember_findUnique ::
  "world \<Rightarrow> string \<Rightarrow> string \<Rightarrow> (error + LaneRole option) \<times> world" where
  "laneMember_findUnique w lane uid =
     (case fault w OpLaneRead of
        Some e \<Rightarrow> (Inl e, logCall (LaneMemberFindUnique lane uid) w)
      | None \<Rightarrow> (Inr (laneMembers w (lane, uid)), logCall (LaneMemberFindUnique lane uid) w))"

subsection \<open>\<^verbatim>\<open>IdentityService\<close>\<close>

definition idempotencyKey :: "string \<Rightarrow> string" where
  "idempotencyKey ev = ''event:processed:'' @ ev"

text \<open>
  The \<^verbatim>\<open>try\<close> block of \<^verbatim>\<open>syncUser\<close>; its \<^verbatim>\<open>catch\<close> logs and rethrows, so the result of
  the block is the result of the function. \<^verbatim>\<open>uuidv7()\<close> is evaluated while the argument
  of \<^verbatim>\<open>upsert\<close> is built, whichever branch the store then takes.
\<close>

definition syncUser_try :: "env \<Rightarrow> world \<Rightarrow> SyncUserDto \<Rightarrow> (error + unit) \<times> world" where
  "syncUser_try en w d =
     (let newId = uuidv7 en (idSeed w);
          w0 = w\<lparr>idSeed := Suc (idSeed w)\<rparr>
      in case user_upsert w0 newId (dto_clerkId d) (dto_email d) (dto_username d)
                (dto_avatarUrl d) of
           (Inl e, w1) \<Rightarrow> (Inl e, w1)
         | (Inr u, w1) \<Rightarrow>
             (case eventId d of
                None \<Rightarrow> (Inr (), w1)
              | Some ev \<Rightarrow>
                  if truthy ev then redis_set w1 (idempotencyKey ev) ''1'' 86400
                  else (Inr (), w1)))"

text \<open>\<^verbatim>\<open>IdentityService.syncUser\<close>.\<close>

definition syncUser :: "env \<Rightarrow> world \<Rightarrow> SyncUserDto \<Rightarrow> (error + unit) \<times> world" where
  "syncUser en w d =
     (case eventId d of
        None \<Rightarrow> syncUser_try en w d
      | Some ev \<Rightarrow>
          if truthy ev then
            (case redis_get w (idempotencyKey ev) of
               (Inl e, w1) \<Rightarrow> (Inl e, w1)
             | (Inr alreadyProcessed, w1) \<Rightarrow>
                 if truthyOpt alreadyProcessed then (Inr (), w1)
                 else syncUser_try en w1 d)
          else syncUser_try en w d)"

text \<open>
  \<^verbatim>\<open>IdentityService.deleteUser\<close>. The \<^verbatim>\<open>catch\<close> guards the update and the write of
  the marker alike: on \<^verbatim>\<open>P2025\<close> it writes the marker and returns, anything else is
  rethrown.
\<close>

definition deleteUser_catch :: "world \<Rightarrow> string \<Rightarrow> error \<Rightarrow> (error + unit) \<times> world" where
  "deleteUser_catch w key e =
     (if errorCode e = Some ''P2025'' then redis_set w key ''1'' 86400
      else (Inl e, w))"

definition deleteUser :: "env \<Rightarrow> world \<Rightarrow> string \<Rightarrow> string \<Rightarrow> (error + unit) \<times> world" where
  "deleteUser en w cid ev =
     (case redis_get w (idempotencyKey ev) of
        (Inl e, w1) \<Rightarrow> (Inl e, w1)
      | (Inr seen, w1) \<Rightarrow>
          if truthyOpt seen then (Inr (), w1)
          else (case user_update_deletedAt w1 cid of
                  (Inl e, w2) \<Rightarrow> deleteUser_catch w2 (idempotencyKey ev) e
                | (Inr u, w2) \<Rightarrow>
                    (case redis_set w2 (idempotencyKey ev) ''1'' 86400 of
                       (Inl e, w3) \<Rightarrow> deleteUser_catch w3 (idempotencyKey ev) e
                     | (Inr x, w3) \<Rightarrow> (Inr (), w3))))"

subsection \<open>\<^verbatim>\<open>validateSession\<close>\<close>

definition SESSION_CACHE_TTL :: nat where
  "SESSION_CACHE_TTL = 60"

text \<open>\<^verbatim>\<open>`session:${token.slice(-32)}`\<close>.\<close>

definition cacheKey :: "string \<Rightarrow> string" where
  "cacheKey tok = ''session:'' @ sliceLast 32 tok"

text \<open>\<^verbatim>\<open>create(ValidateSessionResponseSchema, { valid: false })\<close>: every other field has
  its proto3 default.\<close>

definition invalidResponse :: ValidateSessionResponse where
  "invalidResponse =
     \<lparr>valid = False, userId = [], resp_username = [], resp_avatarUrl = [], roles = [],
      extraClaims = []\<rparr>"

text \<open>The response built for a user that passed the checks.\<close>

definition validResponse :: "user \<Rightarrow> string \<Rightarrow> ValidateSessionResponse" where
  "validResponse u sub =
     \<lparr>valid = True, userId = user_id u, resp_username = username u,
      resp_avatarUrl = (case avatarUrl u of None \<Rightarrow> [] | Some a \<Rightarrow> a),
      roles = [],
      extraClaims = [(''email'', email u), (''clerk_id'', sub)]\<rparr>"

text \<open>
  JIT provisioning, the body of \<^verbatim>\<open>if (!user)\<close>: the profile is fetched, its primary
  email looked up, the user synced with no event identifier, and the row read again.
\<close>

definition primaryEmailOf :: "ClerkUser \<Rightarrow> string option" where
  "primaryEmailOf cu =
     map_option snd
       (find (\<lambda>e. Some (fst e) = primaryEmailAddressId cu) (emailAddresses cu))"

definition provision :: "env \<Rightarrow> world \<Rightarrow> string \<Rightarrow> (error + user) \<times> world" where
  "provision en w sub =
     (let w0 = logCall (ClerkGetUser sub) w
      in case getUser en sub of
           Inl e \<Rightarrow> (Inl e, w0)
         | Inr clerkUser \<Rightarrow>
             (case primaryEmailOf clerkUser of
                None \<Rightarrow> (Inl (ConnectError ''User has no email'' FailedPrecondition), w0)
              | Some primaryEmail \<Rightarrow>
                  if \<not> truthy primaryEmail
                  then (Inl (ConnectError ''User has no email'' FailedPrecondition), w0)
                  else
                    (case syncUser en w0
                            \<lparr>dto_clerkId = sub, dto_email = primaryEmail,
                             dto_username =
                               (if truthyOpt (clerk_username clerkUser)
                                then (case clerk_username clerkUser of
                                        Some n \<Rightarrow> n | None \<Rightarrow> [])
                                else ''user_'' @ take 8 sub),
                             dto_avatarUrl = Some (imageUrl clerkUser),
                             eventId = None\<rparr> of
                       (Inl e, w1) \<Rightarrow> (Inl e, w1)
                     | (Inr x, w1) \<Rightarrow> user_findUniqueOrThrow w1 sub)))"

text \<open>The scope check: \<^verbatim>\<open>lane:<id>\<close> asks for the membership of the user in the lane.\<close>

definition scopeCheck ::
  "world \<Rightarrow> ValidateSessionRequest \<Rightarrow> user \<Rightarrow> (error + unit) \<times> world" where
  "scopeCheck w req u =
     (if truthy (requiredScope req) \<and> startsWith (requiredScope req) ''lane:'' then
        (case at (split CHR '':'' (requiredScope req)) 1 of
           None \<Rightarrow> (Inr (), w)
         | Some laneId \<Rightarrow>
             if truthy laneId then
               (case laneMember_findUnique w laneId (user_id u) of
                  (Inl e, w1) \<Rightarrow> (Inl e, w1)
                | (Inr membership, w1) \<Rightarrow>
                    if membership = Some BANNED
                    then (Inl (ConnectError ''You are banned from this lane''
                                 PermissionDenied), w1)
                    else (Inr (), w1))
             else (Inr (), w))
      else (Inr (), w))"

text \<open>The \<^verbatim>\<open>try\<close> block of the handler, steps 2 to 6.\<close>

definition validateSession_try ::
  "env \<Rightarrow> world \<Rightarrow> ValidateSessionRequest \<Rightarrow> string \<Rightarrow>
     (error + ValidateSessionResponse) \<times> world" where
  "validateSession_try en w req key =
     (let w0 = logCall (VerifyToken (token req)) w
      in case verifyToken en (token req) of
           Inl e \<Rightarrow> (Inl e, w0)
         | Inr sub \<Rightarrow>
             (case user_findUnique w0 sub of
                (Inl e, w1) \<Rightarrow> (Inl e, w1)
              | (Inr found, w1) \<Rightarrow>
                  (case (case found of
                           Some u \<Rightarrow> (Inr u, w1)
                         | None \<Rightarrow> provision en w1 sub) of
                     (Inl e, w2) \<Rightarrow> (Inl e, w2)
                   | (Inr u, w2) \<Rightarrow>
                       if deletedAt u \<noteq> None
                       then (Inl (ConnectError ''User is globally suspended''
                                    PermissionDenied), w2)
                       else
                         (case scopeCheck w2 req u of
                            (Inl e, w3) \<Rightarrow> (Inl e, w3)
                          | (Inr x, w3) \<Rightarrow>
                              (case redis_set w3 key
                                      (toJsonString en (validResponse u sub))
                                      SESSION_CACHE_TTL of
                                 (Inl e, w4) \<Rightarrow> (Inl e, w4)
                               | (Inr y, w4) \<Rightarrow> (Inr (validResponse u sub), w4))))))"

text \<open>
  The \<^verbatim>\<open>catch\<close> block: an error whose message mentions \<^verbatim>\<open>expired\<close> or
  \<^verbatim>\<open>invalid\<close> becomes the response \<^verbatim>\<open>valid: false\<close>, every other error becomes
  \<^verbatim>\<open>ConnectError("Internal Auth Error", Code.Internal)\<close>.
\<close>

definition validateSession_catch :: "error \<Rightarrow> error + ValidateSessionResponse" where
  "validateSession_catch err =
     (let errorMessage = message err
      in if includesStr errorMessage ''expired'' \<or> includesStr errorMessage ''invalid''
         then Inr invalidResponse
         else Inl (ConnectError ''Internal Auth Error'' Internal))"

text \<open>The path after a cache miss: the \<^verbatim>\<open>try\<close> block under its \<^verbatim>\<open>catch\<close>.\<close>

definition validateSession_miss ::
  "env \<Rightarrow> world \<Rightarrow> ValidateSessionRequest \<Rightarrow> string \<Rightarrow>
     (error + ValidateSessionResponse) \<times> world" where
  "validateSession_miss en w req key =
     (case validateSession_try en w req key of
        (Inl err, w1) \<Rightarrow> (validateSession_catch err, w1)
      | (Inr response, w1) \<Rightarrow> (Inr response, w1))"

text \<open>
  \<^verbatim>\<open>validateSession\<close>. The guard on the token, the read of the cache and the
  deserialisation of a hit stand before the \<^verbatim>\<open>try\<close>: what they throw leaves the
  handler as it is.
\<close>

definition validateSession ::
  "env \<Rightarrow> world \<Rightarrow> ValidateSessionRequest \<Rightarrow>
     (error + ValidateSessionResponse) \<times> world" where
  "validateSession en w req =
     (if \<not> truthy (token req)
      then (Inl (ConnectError ''Token is required'' InvalidArgument), w)
      else
        (case redis_get w (cacheKey (token req)) of
           (Inl e, w1) \<Rightarrow> (Inl e, w1)
         | (Inr cachedResult, w1) \<Rightarrow>
             (case cachedResult of
                None \<Rightarrow> validateSession_miss en w1 req (cacheKey (token req))
              | Some s \<Rightarrow>
                  if truthy s then (fromJsonString en s, w1)
                  else validateSession_miss en w1 req (cacheKey (token req)))))"

subsection \<open>Processed events\<close>

text \<open>
  The condition under which \<^verbatim>\<open>syncUser\<close> skips its work: the event identifier is
  present and non-empty and its marker is live (\<^verbatim>\<open>alreadyProcessed\<close> in the source).
\<close>

definition alreadyProcessed :: "world \<Rightarrow> SyncUserDto \<Rightarrow> bool" where
  "alreadyProcessed w d =
     (case eventId d of
        None \<Rightarrow> False
      | Some ev \<Rightarrow> truthy ev \<and> truthyOpt (live w (idempotencyKey ev)))"

subsection \<open>Scenarios\<close>

text \<open>
  Concrete collaborators and worlds. The verifier accepts two tokens, for the subjects
  \<open>u1\<close> and \<open>u2\<close>; the profile of \<open>u2\<close> has no email address; the codec is a
  stand-in that round-trips the one response the scenarios cache.
\<close>

definition alice :: user where
  "alice = \<lparr>user_id = ''id-a'', clerkId = ''u1'', email = ''a@x.com'', username = ''alice'',
            avatarUrl = None, createdAt = 5, updatedAt = 5, deletedAt = None\<rparr>"

definition encode0 :: "ValidateSessionResponse \<Rightarrow> string" where
  "encode0 r = (if valid r then ''valid:'' else ''invalid:'') @ userId r"

definition decode0 :: "string \<Rightarrow> error + ValidateSessionResponse" where
  "decode0 s =
     (if s = encode0 (validResponse alice ''u1'') then Inr (validResponse alice ''u1'')
      else Inl (JsError None ''cannot decode''))"

definition env0 :: env where
  "env0 =
     \<lparr>verifyToken = (\<lambda>t. if t = ''tok-u1'' then Inr ''u1''
                         else if t = ''tok-u2'' then Inr ''u2''
                         else Inl (JsError None ''JWT signature is invalid'')),
      getUser = (\<lambda>s. if s = ''u2''
                     then Inr \<lparr>primaryEmailAddressId = None, emailAddresses = [],
                               clerk_username = None, imageUrl = []\<rparr>
                     else Inl (JsError None ''Not Found'')),
      toJsonString = encode0,
      fromJsonString = decode0,
      uuidv7 = (\<lambda>n. ''id-'' @ replicate n CHR ''x'')\<rparr>"

definition w_empty :: world where
  "w_empty = \<lparr>users = Map.empty, laneMembers = Map.empty, kv = Map.empty, now = 1000,
              idSeed = 0, fault = (\<lambda>x. None), calls = []\<rparr>"

definition w_alice :: world where
  "w_alice = w_empty\<lparr>users := [''u1'' \<mapsto> alice]\<rparr>"

definition w_banned :: world where
  "w_banned = w_empty\<lparr>users := [''u1'' \<mapsto> alice\<lparr>deletedAt := Some 900\<rparr>]\<rparr>"

definition cacheReadError :: error where
  "cacheReadError = JsError None ''LOADING Redis is loading the dataset in memory''"

definition w_cacheDown :: world where
  "w_cacheDown =
     w_alice\<lparr>fault := (\<lambda>x. if x = OpRedisGet then Some cacheReadError else None)\<rparr>"

definition req_u1 :: ValidateSessionRequest where
  "req_u1 = \<lparr>token = ''tok-u1'', requiredScope = []\<rparr>"

definition req_u2 :: ValidateSessionRequest where
  "req_u2 = \<lparr>token = ''tok-u2'', requiredScope = []\<rparr>"

definition sync_ev1 :: SyncUserDto where
  "sync_ev1 = \<lparr>dto_clerkId = ''u1'', dto_email = ''a@x.com'', dto_username = ''alice'',
               dto_avatarUrl = None, eventId = Some ''ev1''\<rparr>"

definition sync_ev3 :: SyncUserDto where
  "sync_ev3 = \<lparr>dto_clerkId = ''u1'', dto_email = ''a@x.com'', dto_username = ''alice'',
               dto_avatarUrl = None, eventId = Some ''ev3''\<rparr>"

section \<open>Properties\<close>

subsection \<open>Evaluation rules\<close>

lemmas store_defs = logCall_def live_def redis_get_def redis_set_def user_findUnique_def
  user_findUniqueOrThrow_def user_upsert_def user_update_deletedAt_def
  laneMember_findUnique_def notFound_def createdUser_def Let_def

lemmas service_defs = idempotencyKey_def syncUser_try_def syncUser_def deleteUser_catch_def
  deleteUser_def alreadyProcessed_def

lemmas handler_defs = SESSION_CACHE_TTL_def cacheKey_def invalidResponse_def
  validResponse_def primaryEmailOf_def provision_def scopeCheck_def validateSession_try_def
  validateSession_catch_def validateSession_miss_def validateSession_def

lemmas scenario_defs = alice_def encode0_def decode0_def env0_def w_empty_def w_alice_def
  w_banned_def cacheReadError_def w_cacheDown_def req_u1_def req_u2_def sync_ev1_def
  sync_ev3_def

lemmas js_defs = truthy_def truthyOpt_def startsWith_def sliceLast_def at_def

lemma logCall_simps [simp]:
  "kv (logCall c w) = kv w"
  "now (logCall c w) = now w"
  "users (logCall c w) = users w"
  "fault (logCall c w) = fault w"
  "laneMembers (logCall c w) = laneMembers w"
  "idSeed (logCall c w) = idSeed w"
  "calls (logCall c w) = calls w @ [c]"
  by (simp_all add: logCall_def)

lemma deletedAt_createdUser [simp]: "deletedAt (createdUser t i c em un av) = None"
  by (simp add: createdUser_def)

lemma live_logCall [simp]: "live (logCall c w) k = live w k"
  by (simp add: live_def split: option.splits)

lemma live_update_simps [simp]:
  "live (w\<lparr>users := us\<rparr>) k = live w k"
  "live (w\<lparr>idSeed := n\<rparr>) k = live w k"
  by (simp_all add: live_def split: option.splits)

subsection \<open>The stores: what each operation does and leaves alone\<close>

lemma redis_get_frame:
  "kv (snd (redis_get w k)) = kv w \<and> now (snd (redis_get w k)) = now w \<and>
   users (snd (redis_get w k)) = users w \<and> fault (snd (redis_get w k)) = fault w"
  by (simp add: redis_get_def split: option.splits)

lemma redis_get_ok:
  "fault w OpRedisGet = None \<Longrightarrow>
     redis_get w k = (Inr (live w k), logCall (RedisGet k) w)"
  by (simp add: redis_get_def)

lemma redis_get_Inr:
  "redis_get w k = (Inr v, w1) \<Longrightarrow>
     v = live w k \<and> w1 = logCall (RedisGet k) w \<and> fault w OpRedisGet = None"
  by (auto simp: redis_get_def split: option.splits)

lemma redis_set_Inr:
  "redis_set w k v s = (Inr x, w1) \<Longrightarrow>
     w1 = logCall (RedisSet k v s) (w\<lparr>kv := (kv w)(k \<mapsto> (v, now w + s * 1000))\<rparr>) \<and>
     fault w OpRedisSet = None"
  by (auto simp: redis_set_def split: option.splits)

lemma redis_set_Inl:
  "redis_set w k v s = (Inl e, w1) \<Longrightarrow> w1 = logCall (RedisSet k v s) w"
  by (auto simp: redis_set_def split: option.splits)

lemma user_upsert_Inr:
  "user_upsert w i c em un av = (Inr u, w1) \<Longrightarrow>
     w1 = logCall (UserUpsert c) (w\<lparr>users := (users w)(c \<mapsto> u)\<rparr>) \<and>
     u = (case users w c of
            Some old \<Rightarrow> old\<lparr>email := em, username := un, avatarUrl := av,
                             updatedAt := now w, deletedAt := None\<rparr>
          | None \<Rightarrow> createdUser (now w) i c em un av)"
  by (auto simp: user_upsert_def Let_def split: option.splits)

lemma user_upsert_Inl:
  "user_upsert w i c em un av = (Inl e, w1) \<Longrightarrow> w1 = logCall (UserUpsert c) w"
  by (auto simp: user_upsert_def Let_def split: option.splits)

lemma user_upsert_frame:
  "user_upsert w i c em un av = (r, w') \<Longrightarrow>
     kv w' = kv w \<and> now w' = now w \<and> fault w' = fault w"
  by (auto simp: user_upsert_def Let_def split: option.splits)

lemma user_findUnique_frame:
  "user_findUnique w c = (r, w') \<Longrightarrow>
     kv w' = kv w \<and> now w' = now w \<and> fault w' = fault w"
  by (auto simp: user_findUnique_def split: option.splits)

lemma user_findUniqueOrThrow_frame:
  "user_findUniqueOrThrow w c = (r, w') \<Longrightarrow>
     kv w' = kv w \<and> now w' = now w \<and> fault w' = fault w"
  by (auto simp: user_findUniqueOrThrow_def split: option.splits)

lemma laneMember_findUnique_frame:
  "laneMember_findUnique w l u = (r, w') \<Longrightarrow>
     kv w' = kv w \<and> now w' = now w \<and> fault w' = fault w"
  by (auto simp: laneMember_findUnique_def split: option.splits)

subsection \<open>The identity reconciler\<close>

text \<open>What a successful run of the guarded block of \<open>syncUser\<close> leaves behind.\<close>

lemma syncUser_try_Inr:
  assumes "syncUser_try en w d = (Inr x, w')"
  shows "\<exists>u. users w' = (users w)(dto_clerkId d \<mapsto> u) \<and>
             u = (case users w (dto_clerkId d) of
                    Some old \<Rightarrow> old\<lparr>email := dto_email d, username := dto_username d,
                                     avatarUrl := dto_avatarUrl d,
                                     updatedAt := now w, deletedAt := None\<rparr>
                  | None \<Rightarrow> createdUser (now w) (uuidv7 en (idSeed w)) (dto_clerkId d)
                               (dto_email d) (dto_username d) (dto_avatarUrl d))"
    and "now w' = now w" and "fault w' = fault w"
    and "kv w' = (case eventId d of
                    None \<Rightarrow> kv w
                  | Some ev \<Rightarrow> if truthy ev
                               then (kv w)(idempotencyKey ev \<mapsto> (''1'', now w + 86400000))
                               else kv w)"
  using assms
  by (auto simp: syncUser_try_def Let_def
           split: prod.splits sum.splits option.splits if_splits
           dest!: user_upsert_Inr redis_set_Inr)

lemma syncUser_unfold_new:
  assumes "eventId d = Some ev" "truthy ev" "\<not> truthyOpt (live w (idempotencyKey ev))"
    and "fst (syncUser en w d) = Inr ()"
  shows "fault w OpRedisGet = None"
    and "syncUser en w d = syncUser_try en (logCall (RedisGet (idempotencyKey ev)) w) d"
  using assms
  by (auto simp: syncUser_def redis_get_def split: option.splits)

lemma syncUser_unfold_absent:
  assumes "eventId d = None \<or> eventId d = Some []"
  shows "syncUser en w d = syncUser_try en w d"
  using assms by (auto simp: syncUser_def truthy_def)

lemma syncUser_skip:
  assumes "eventId d = Some ev" "truthy ev" "fault w OpRedisGet = None"
    and "truthyOpt (live w (idempotencyKey ev))"
  shows "syncUser en w d = (Inr (), logCall (RedisGet (idempotencyKey ev)) w)"
  using assms by (simp add: syncUser_def redis_get_def)

lemma syncUser_duplicate:
  assumes "eventId d = Some ev" "truthy ev" "truthyOpt (live w (idempotencyKey ev))"
  shows "users (snd (syncUser en w d)) = users w"
  using assms by (simp add: syncUser_def redis_get_def split: option.splits)

lemma syncUser_applied:
  assumes ok: "fst (syncUser en w d) = Inr ()"
    and new: "\<not> alreadyProcessed w d"
  shows "users (snd (syncUser en w d)) =
           (users w)(dto_clerkId d \<mapsto>
              (case users w (dto_clerkId d) of
                 Some old \<Rightarrow> old\<lparr>email := dto_email d, username := dto_username d,
                                  avatarUrl := dto_avatarUrl d,
                                  updatedAt := now w, deletedAt := None\<rparr>
               | None \<Rightarrow> createdUser (now w) (uuidv7 en (idSeed w)) (dto_clerkId d)
                            (dto_email d) (dto_username d) (dto_avatarUrl d)))"
proof -
  obtain w1 where w1: "syncUser en w d = (Inr (), w1)"
    using ok by (cases "syncUser en w d") auto
  show ?thesis
  proof (cases "\<exists>ev. eventId d = Some ev \<and> truthy ev")
    case True
    then obtain ev where ev: "eventId d = Some ev" "truthy ev" by blast
    have "\<not> truthyOpt (live w (idempotencyKey ev))"
      using new ev by (simp add: alreadyProcessed_def)
    from syncUser_unfold_new [OF ev this ok] w1
    have "syncUser_try en (logCall (RedisGet (idempotencyKey ev)) w) d = (Inr (), w1)"
      by simp
    from syncUser_try_Inr(1) [OF this] show ?thesis
      using w1 by (simp cong: option.case_cong)
  next
    case False
    then have "eventId d = None \<or> eventId d = Some []"
      by (cases "eventId d") (auto simp: truthy_def)
    from syncUser_unfold_absent [OF this] w1
    have "syncUser_try en w d = (Inr (), w1)" by simp
    from syncUser_try_Inr(1) [OF this] show ?thesis
      using w1 by simp
  qed
qed

lemma syncUser_noevent_frame:
  assumes "eventId d = None" "syncUser en w d = (r, w')"
  shows "kv w' = kv w \<and> now w' = now w \<and> fault w' = fault w"
  using assms
  by (auto simp: syncUser_def syncUser_try_def Let_def
           split: prod.splits sum.splits dest!: user_upsert_frame)

lemma deleteUser_applied:
  assumes "users w cid = Some old"
    and "\<not> truthyOpt (live w (idempotencyKey ev))"
    and "fault w OpUserUpdate = None"
    and "fst (deleteUser en w cid ev) = Inr ()"
  shows "users (snd (deleteUser en w cid ev)) =
           (users w)(cid \<mapsto> old\<lparr>deletedAt := Some (now w)\<rparr>)"
    and "now (snd (deleteUser en w cid ev)) = now w"
    and "\<forall>k. k \<noteq> idempotencyKey ev \<longrightarrow> kv (snd (deleteUser en w cid ev)) k = kv w k"
  using assms
  by (auto simp: deleteUser_def redis_get_def user_update_deletedAt_def
        deleteUser_catch_def redis_set_def Let_def split: option.splits if_splits)

text \<open>
  Claim C3 reads: for every event with a delivery identifier, a second application
  leaves the state of the first and does not touch the record store. The marker is
  written with \<^verbatim>\<open>"EX", 86400\<close> and is the only guard. On the empty world
  \<open>syncUser(u1, a@x.com, ev1)\<close> succeeds at time 1000; delivered again at time
  86401001, after the marker has expired, it calls the record store again and moves
  \<open>updatedAt\<close> from 1000 to 86401001.
\<close>

theorem syncUser_redelivery_after_expiry_counterexample:
  "fst (syncUser env0 w_empty sync_ev1) = Inr () \<and>
   map_option updatedAt (users (snd (syncUser env0 w_empty sync_ev1)) ''u1'') = Some 1000 \<and>
   fst (syncUser env0 ((snd (syncUser env0 w_empty sync_ev1))\<lparr>now := 86401001\<rparr>) sync_ev1) =
     Inr () \<and>
   calls (snd (syncUser env0 ((snd (syncUser env0 w_empty sync_ev1))\<lparr>now := 86401001\<rparr>)
                 sync_ev1)) =
     [RedisGet ''event:processed:ev1'', UserUpsert ''u1'',
      RedisSet ''event:processed:ev1'' ''1'' 86400,
      RedisGet ''event:processed:ev1'', UserUpsert ''u1'',
      RedisSet ''event:processed:ev1'' ''1'' 86400] \<and>
   map_option updatedAt
     (users (snd (syncUser env0 ((snd (syncUser env0 w_empty sync_ev1))\<lparr>now := 86401001\<rparr>)
                    sync_ev1)) ''u1'') = Some 86401001"
  by (simp add: scenario_defs store_defs service_defs js_defs)

text \<open>
  Claim C3, as amended (idempotence inside the retention window, Scenario A). An event
  with a non-empty identifier \<open>ev\<close> whose marker is not yet live is applied by
  \<open>syncUser\<close> with success at time \<open>now w\<close>. Delivered again, with the same arguments,
  at any time \<open>t\<close> less than 86400 seconds after the first application, while the
  marker is retained, \<open>syncUser\<close> returns with success and the world is the one the
  first call left, with one more entry in the trace: the read of the marker. So the
  record store and the ledger are as after one application and the record store is
  not called. After the first call there is a record for the external identifier
  and the marker of \<open>ev\<close> is stored, to expire 86400 seconds after the first call.
\<close>

theorem syncUser_idempotent:
  assumes ev: "eventId d = Some ev" "truthy ev"
    and new: "\<not> truthyOpt (live w (idempotencyKey ev))"
    and ok: "fst (syncUser en w d) = Inr ()"
    and t: "t < now w + 86400000"
  shows "syncUser en ((snd (syncUser en w d))\<lparr>now := t\<rparr>) d =
           (Inr (), logCall (RedisGet (idempotencyKey ev))
                      ((snd (syncUser en w d))\<lparr>now := t\<rparr>)) \<and>
         users (snd (syncUser en ((snd (syncUser en w d))\<lparr>now := t\<rparr>) d)) =
           users (snd (syncUser en w d)) \<and>
         kv (snd (syncUser en ((snd (syncUser en w d))\<lparr>now := t\<rparr>) d)) =
           kv (snd (syncUser en w d)) \<and>
         (\<exists>u. users (snd (syncUser en w d)) (dto_clerkId d) = Some u) \<and>
         kv (snd (syncUser en w d)) (idempotencyKey ev) = Some (''1'', now w + 86400000)"
proof -
  let ?k = "idempotencyKey ev"
  obtain w1 where w1: "syncUser en w d = (Inr (), w1)"
    using ok by (cases "syncUser en w d") auto
  have get: "fault w OpRedisGet = None"
    and run: "syncUser en w d = syncUser_try en (logCall (RedisGet ?k) w) d"
    using syncUser_unfold_new [OF ev new ok] by simp_all
  have run1: "syncUser_try en (logCall (RedisGet ?k) w) d = (Inr (), w1)"
    using run w1 by simp
  have kv1: "kv w1 = (kv w)(?k \<mapsto> (''1'', now w + 86400000))"
    and f1: "fault w1 = fault w"
    and us: "\<exists>u. users w1 (dto_clerkId d) = Some u"
    using syncUser_try_Inr [OF run1] ev by auto
  have "live (w1\<lparr>now := t\<rparr>) ?k = Some ''1''"
    using kv1 t by (simp add: live_def)
  then have "truthyOpt (live (w1\<lparr>now := t\<rparr>) ?k)"
    by (simp add: truthyOpt_def truthy_def)
  moreover have "fault (w1\<lparr>now := t\<rparr>) OpRedisGet = None"
    using f1 get by simp
  ultimately have "syncUser en (w1\<lparr>now := t\<rparr>) d =
      (Inr (), logCall (RedisGet ?k) (w1\<lparr>now := t\<rparr>))"
    using syncUser_skip [OF ev] by blast
  then show ?thesis
    using w1 kv1 us by simp
qed

text \<open>Scenario A: \<open>syncUser(u1, a@x.com, ev1)\<close> twice on the empty world.\<close>

theorem syncUser_idempotent_witness:
  "eventId sync_ev1 = Some ''ev1'' \<and> truthy ''ev1'' \<and>
   \<not> truthyOpt (live w_empty (idempotencyKey ''ev1'')) \<and>
   fst (syncUser env0 w_empty sync_ev1) = Inr () \<and>
   (2000::nat) < now w_empty + 86400000 \<and>
   syncUser env0 ((snd (syncUser env0 w_empty sync_ev1))\<lparr>now := 2000\<rparr>) sync_ev1 =
     (Inr (), logCall (RedisGet (idempotencyKey ''ev1''))
                ((snd (syncUser env0 w_empty sync_ev1))\<lparr>now := 2000\<rparr>)) \<and>
   users (snd (syncUser env0 ((snd (syncUser env0 w_empty sync_ev1))\<lparr>now := 2000\<rparr>)
                 sync_ev1)) =
     users (snd (syncUser env0 w_empty sync_ev1)) \<and>
   (\<exists>u. users (snd (syncUser env0 w_empty sync_ev1)) (dto_clerkId sync_ev1) = Some u) \<and>
   kv (snd (syncUser env0 w_empty sync_ev1)) (idempotencyKey ''ev1'') =
     Some (''1'', now w_empty + 86400000)"
proof -
  have h: "eventId sync_ev1 = Some ''ev1''" "truthy ''ev1''"
    "\<not> truthyOpt (live w_empty (idempotencyKey ''ev1''))"
    "fst (syncUser env0 w_empty sync_ev1) = Inr ()"
    "(2000::nat) < now w_empty + 86400000"
    by (simp_all add: scenario_defs store_defs service_defs js_defs)
  from syncUser_idempotent [OF h] h show ?thesis by blast
qed

text \<open>
  Claim C4 (resurrection). If the external identifier has a soft-deleted record and
  \<open>syncUser\<close> succeeds with an event identifier that is absent or has no live marker,
  then afterwards the record of that identifier has \<open>deletedAt\<close> cleared.
\<close>

theorem syncUser_resurrects:
  assumes "users w (dto_clerkId d) = Some old" "deletedAt old \<noteq> None"
    and "fst (syncUser en w d) = Inr ()"
    and "\<not> alreadyProcessed w d"
  shows "\<exists>u. users (snd (syncUser en w d)) (dto_clerkId d) = Some u \<and>
             deletedAt u = None"
  using syncUser_applied [OF assms(3,4)] assms(1) by simp

text \<open>
  Scenario B: \<open>deleteUser(u1, ev2)\<close> on a world that holds \<open>u1\<close>, then
  \<open>syncUser(u1, a@x.com, ev3)\<close>: the record is active again.
\<close>

theorem syncUser_resurrects_witness:
  "(\<exists>old. users (snd (deleteUser env0 w_alice ''u1'' ''ev2'')) (dto_clerkId sync_ev3) = Some old \<and>
          deletedAt old \<noteq> None) \<and>
   fst (syncUser env0 (snd (deleteUser env0 w_alice ''u1'' ''ev2'')) sync_ev3) = Inr () \<and>
   \<not> alreadyProcessed (snd (deleteUser env0 w_alice ''u1'' ''ev2'')) sync_ev3 \<and>
   (\<exists>u. users (snd (syncUser env0 (snd (deleteUser env0 w_alice ''u1'' ''ev2'')) sync_ev3))
          (dto_clerkId sync_ev3) = Some u \<and> deletedAt u = None)"
proof -
  let ?w = "snd (deleteUser env0 w_alice ''u1'' ''ev2'')"
  have h1: "users ?w (dto_clerkId sync_ev3) = Some (alice\<lparr>deletedAt := Some 1000\<rparr>)"
    by (simp add: scenario_defs store_defs service_defs js_defs)
  have h2: "deletedAt (alice\<lparr>deletedAt := Some 1000\<rparr>) \<noteq> None"
    by simp
  have h3: "fst (syncUser env0 ?w sync_ev3) = Inr ()"
    by (simp add: scenario_defs store_defs service_defs js_defs)
  have h4: "\<not> alreadyProcessed ?w sync_ev3"
    by (simp add: scenario_defs store_defs service_defs js_defs)
  from syncUser_resurrects [OF h1 h2 h3 h4] h1 h2 h3 h4 show ?thesis by blast
qed

text \<open>
  The sequence of Scenario B in general: a delete that is applied to an existing record,
  then a sync whose event identifier is absent, or differs from the one of the delete
  and has no live marker. The record is soft-deleted in between and active at the end.
\<close>

lemma deleteUser_then_syncUser:
  assumes old: "users w (dto_clerkId d) = Some old"
    and new2: "\<not> truthyOpt (live w (idempotencyKey ev2))"
    and up: "fault w OpUserUpdate = None"
    and del: "fst (deleteUser en w (dto_clerkId d) ev2) = Inr ()"
    and fresh: "case eventId d of
                  None \<Rightarrow> True
                | Some ev3 \<Rightarrow> ev3 \<noteq> ev2 \<and> \<not> truthyOpt (live w (idempotencyKey ev3))"
    and sync: "fst (syncUser en (snd (deleteUser en w (dto_clerkId d) ev2)) d) = Inr ()"
  shows "(\<exists>u. users (snd (deleteUser en w (dto_clerkId d) ev2)) (dto_clerkId d) = Some u \<and>
              deletedAt u \<noteq> None) \<and>
         (\<exists>u. users (snd (syncUser en (snd (deleteUser en w (dto_clerkId d) ev2)) d))
                (dto_clerkId d) = Some u \<and> deletedAt u = None)"
proof -
  let ?w1 = "snd (deleteUser en w (dto_clerkId d) ev2)"
  note a = deleteUser_applied [OF old new2 up del]
  have deleted: "\<exists>u. users ?w1 (dto_clerkId d) = Some u \<and> deletedAt u \<noteq> None"
    using a(1) by simp
  have "\<not> alreadyProcessed ?w1 d"
  proof (cases "eventId d")
    case None
    then show ?thesis by (simp add: alreadyProcessed_def)
  next
    case (Some ev3)
    with fresh have ne: "idempotencyKey ev3 \<noteq> idempotencyKey ev2"
      and new3: "\<not> truthyOpt (live w (idempotencyKey ev3))"
      by (simp_all add: idempotencyKey_def)
    have "live ?w1 (idempotencyKey ev3) = live w (idempotencyKey ev3)"
      using a(2) a(3) ne by (simp add: live_def split: option.splits)
    with new3 Some show ?thesis by (simp add: alreadyProcessed_def)
  qed
  from syncUser_applied [OF sync this] have
    "\<exists>u. users (snd (syncUser en ?w1 d)) (dto_clerkId d) = Some u \<and> deletedAt u = None"
    by (auto split: option.splits)
  with deleted show ?thesis by blast
qed

text \<open>
  Claim C5 (delete before create). With no record for the external identifier, no live
  marker for the event and the stores answering, \<open>deleteUser\<close> returns with success,
  leaves the user table as it was (so still without a record for that identifier) and
  stores the marker of the event for 86400 seconds. The calls it makes are the read of
  the marker, the update that finds no row, and the write of the marker.
\<close>

theorem deleteUser_before_create:
  assumes "users w cid = None"
    and "\<not> truthyOpt (live w (idempotencyKey ev))"
    and "fault w OpRedisGet = None" "fault w OpUserUpdate = None"
      "fault w OpRedisSet = None"
  shows "fst (deleteUser en w cid ev) = Inr () \<and>
         users (snd (deleteUser en w cid ev)) = users w \<and>
         kv (snd (deleteUser en w cid ev)) =
           (kv w)(idempotencyKey ev \<mapsto> (''1'', now w + 86400000)) \<and>
         calls (snd (deleteUser en w cid ev)) =
           calls w @ [RedisGet (idempotencyKey ev), UserUpdate cid,
                      RedisSet (idempotencyKey ev) ''1'' 86400]"
  using assms
  by (simp add: deleteUser_def redis_get_def user_update_deletedAt_def notFound_def
        deleteUser_catch_def redis_set_def)

text \<open>\<open>deleteUser(u1, ev2)\<close> on the empty world.\<close>

theorem deleteUser_before_create_witness:
  "users w_empty ''u1'' = None \<and>
   \<not> truthyOpt (live w_empty (idempotencyKey ''ev2'')) \<and>
   fault w_empty OpRedisGet = None \<and> fault w_empty OpUserUpdate = None \<and>
   fault w_empty OpRedisSet = None \<and>
   fst (deleteUser env0 w_empty ''u1'' ''ev2'') = Inr () \<and>
   users (snd (deleteUser env0 w_empty ''u1'' ''ev2'')) = users w_empty \<and>
   kv (snd (deleteUser env0 w_empty ''u1'' ''ev2'')) =
     (kv w_empty)(idempotencyKey ''ev2'' \<mapsto> (''1'', now w_empty + 86400000)) \<and>
   calls (snd (deleteUser env0 w_empty ''u1'' ''ev2'')) =
     calls w_empty @ [RedisGet (idempotencyKey ''ev2''), UserUpdate ''u1'',
                      RedisSet (idempotencyKey ''ev2'') ''1'' 86400]"
proof -
  have h: "users w_empty ''u1'' = None"
    "\<not> truthyOpt (live w_empty (idempotencyKey ''ev2''))"
    "fault w_empty OpRedisGet = None" "fault w_empty OpUserUpdate = None"
    "fault w_empty OpRedisSet = None"
    by (simp_all add: scenario_defs store_defs js_defs)
  from deleteUser_before_create [OF h, of env0] h show ?thesis by blast
qed

text \<open>
  Claim C9 (frame of the update branch). If the external identifier has a record
  \<open>old\<close> and \<open>syncUser\<close> succeeds, the record of that identifier afterwards has the
  \<open>user_id\<close>, \<open>createdAt\<close> and \<open>clerkId\<close> of \<open>old\<close>: it is either \<open>old\<close> itself (a
  duplicate event, skipped) or \<open>old\<close> with \<open>email\<close>, \<open>username\<close>, \<open>avatarUrl\<close>,
  \<open>updatedAt\<close> and \<open>deletedAt\<close> overwritten. The records of all other identifiers are
  untouched.
\<close>

theorem syncUser_preserves_identity:
  assumes old: "users w (dto_clerkId d) = Some old"
    and ok: "fst (syncUser en w d) = Inr ()"
  shows "(\<exists>u. users (snd (syncUser en w d)) (dto_clerkId d) = Some u \<and>
              user_id u = user_id old \<and> createdAt u = createdAt old \<and>
              clerkId u = clerkId old \<and>
              (u = old \<or>
               u = old\<lparr>email := dto_email d, username := dto_username d,
                        avatarUrl := dto_avatarUrl d, updatedAt := now w,
                        deletedAt := None\<rparr>)) \<and>
         (\<forall>c. c \<noteq> dto_clerkId d \<longrightarrow> users (snd (syncUser en w d)) c = users w c)"
proof (cases "alreadyProcessed w d")
  case True
  then obtain ev where "eventId d = Some ev" "truthy ev"
    "truthyOpt (live w (idempotencyKey ev))"
    by (auto simp: alreadyProcessed_def split: option.splits)
  from syncUser_duplicate [OF this] old show ?thesis by simp
next
  case False
  from syncUser_applied [OF ok False] old show ?thesis by simp
qed

text \<open>\<open>syncUser(u1, a@x.com, ev1)\<close> on a world that holds \<open>u1\<close>.\<close>

theorem syncUser_preserves_identity_witness:
  "users w_alice (dto_clerkId sync_ev1) = Some alice \<and>
   fst (syncUser env0 w_alice sync_ev1) = Inr () \<and>
   (\<exists>u. users (snd (syncUser env0 w_alice sync_ev1)) (dto_clerkId sync_ev1) = Some u \<and>
        user_id u = ''id-a'' \<and> createdAt u = 5 \<and> clerkId u = ''u1'')"
proof -
  have h: "users w_alice (dto_clerkId sync_ev1) = Some alice"
    "fst (syncUser env0 w_alice sync_ev1) = Inr ()"
    by (simp_all add: scenario_defs store_defs service_defs js_defs)
  have "user_id alice = ''id-a''" "createdAt alice = 5" "clerkId alice = ''u1''"
    by (simp_all add: alice_def)
  with syncUser_preserves_identity [OF h] h show ?thesis by auto
qed

subsection \<open>The session validator: the cache\<close>

text \<open>
  Claim C7 reads: the cache key has a fixed length and is never the full credential.
  For the credential \<open>abc\<close> the key is \<open>session:\<close> followed by the whole credential,
  and it is shorter than the key of a credential of 36 code units.
\<close>

theorem cacheKey_counterexample:
  "cacheKey ''abc'' = ''session:'' @ ''abc'' \<and>
   length (cacheKey ''abc'') \<noteq> length (cacheKey ''0123456789abcdefghijklmnopqrstuvwxyz'')"
  by (simp add: cacheKey_def sliceLast_def)

text \<open>
  Claim C7, as amended. The cache key is \<open>session:\<close> followed by the last 32 code
  units of the credential, which is a suffix of the credential; the key has
  \<open>8 + min 32 n\<close> code units for a credential of \<open>n\<close>, so 40 for every credential
  longer than 32; and the part after \<open>session:\<close> is the whole credential exactly when
  the credential has at most 32 code units.
\<close>

theorem cacheKey_shape:
  "cacheKey tok = ''session:'' @ sliceLast 32 tok \<and>
   length (cacheKey tok) = 8 + min 32 (length tok) \<and>
   (\<exists>p. tok = p @ sliceLast 32 tok) \<and>
   (sliceLast 32 tok = tok) = (length tok \<le> 32)"
proof -
  have "tok = take (length tok - 32) tok @ sliceLast 32 tok"
    by (simp add: sliceLast_def)
  then have "\<exists>p. tok = p @ sliceLast 32 tok" ..
  moreover have "(sliceLast 32 tok = tok) = (length tok \<le> 32)"
  proof
    assume "sliceLast 32 tok = tok"
    then have "length (sliceLast 32 tok) = length tok" by simp
    then show "length tok \<le> 32" by (simp add: sliceLast_def)
  next
    assume "length tok \<le> 32"
    then show "sliceLast 32 tok = tok" by (simp add: sliceLast_def)
  qed
  ultimately show ?thesis
    by (simp add: cacheKey_def sliceLast_def)
qed

text \<open>A hit returns what the codec makes of the stored string, whatever that is.\<close>

lemma validateSession_hit:
  assumes "truthy (token req)" "fault w OpRedisGet = None"
    and "live w (cacheKey (token req)) = Some s" "truthy s"
  shows "validateSession en w req =
           (fromJsonString en s, logCall (RedisGet (cacheKey (token req))) w)"
  using assms by (simp add: validateSession_def redis_get_def)

text \<open>
  Claim C6 (cache hit). Let the fingerprint of the credential have a live entry, the
  serialisation of a response \<open>r\<close> (the most recent write under that key, since a
  write replaces the entry), and let the codec read back what it wrote. Then
  \<open>validateSession\<close> returns \<open>r\<close>, and the world afterwards is the world before with
  one more entry in the trace, the read of the cache: no call to the verifier, to
  the record store or to the profile query.
\<close>

theorem cache_hit_returns_cached:
  assumes "truthy (token req)" "fault w OpRedisGet = None"
    and "live w (cacheKey (token req)) = Some (toJsonString en r)"
    and "truthy (toJsonString en r)"
    and "fromJsonString en (toJsonString en r) = Inr r"
  shows "validateSession en w req =
           (Inr r, logCall (RedisGet (cacheKey (token req))) w)"
  using validateSession_hit [OF assms(1-4)] assms(5) by simp

text \<open>
  Scenario C: a first call for \<open>u1\<close> misses and writes the cache, a second call with
  the same credential is answered from it.
\<close>

theorem cache_hit_returns_cached_witness:
  "truthy (token req_u1) \<and>
   fault (snd (validateSession env0 w_alice req_u1)) OpRedisGet = None \<and>
   live (snd (validateSession env0 w_alice req_u1)) (cacheKey (token req_u1)) =
     Some (toJsonString env0 (validResponse alice ''u1'')) \<and>
   truthy (toJsonString env0 (validResponse alice ''u1'')) \<and>
   fromJsonString env0 (toJsonString env0 (validResponse alice ''u1'')) =
     Inr (validResponse alice ''u1'') \<and>
   fst (validateSession env0 w_alice req_u1) = Inr (validResponse alice ''u1'') \<and>
   validateSession env0 (snd (validateSession env0 w_alice req_u1)) req_u1 =
     (Inr (validResponse alice ''u1''),
      logCall (RedisGet (cacheKey (token req_u1))) (snd (validateSession env0 w_alice req_u1)))"
proof -
  let ?w = "snd (validateSession env0 w_alice req_u1)"
  have h: "truthy (token req_u1)" "fault ?w OpRedisGet = None"
    "live ?w (cacheKey (token req_u1)) = Some (toJsonString env0 (validResponse alice ''u1''))"
    "truthy (toJsonString env0 (validResponse alice ''u1''))"
    "fromJsonString env0 (toJsonString env0 (validResponse alice ''u1'')) =
       Inr (validResponse alice ''u1'')"
    by (simp_all add: scenario_defs store_defs handler_defs js_defs)
  have first: "fst (validateSession env0 w_alice req_u1) = Inr (validResponse alice ''u1'')"
    by (simp add: scenario_defs store_defs handler_defs js_defs)
  from cache_hit_returns_cached [OF h] h first show ?thesis by blast
qed

text \<open>
  Claim C8 reads: a failed read of the cache falls back to the path of a miss. On a
  world whose cache read is rejected the handler returns that very error and has made no
  other call; the same request on the same world without the fault is answered
  \<open>valid: true\<close>.
\<close>

theorem cache_read_failure_counterexample:
  "fault w_cacheDown OpRedisGet = Some cacheReadError \<and>
   fst (validateSession env0 w_cacheDown req_u1) = Inl cacheReadError \<and>
   calls (snd (validateSession env0 w_cacheDown req_u1)) = [RedisGet (cacheKey ''tok-u1'')] \<and>
   fst (validateSession env0 w_alice req_u1) = Inr (validResponse alice ''u1'')"
  by (simp add: scenario_defs store_defs handler_defs js_defs)

text \<open>
  Claim C8, as amended. The read of the cache stands before the \<^verbatim>\<open>try\<close> block: when it
  fails with an error \<open>e\<close>, \<open>validateSession\<close> ends with \<open>e\<close> itself, and the only call
  it has made is that read (no verification, no record lookup, no check).
\<close>

theorem cache_read_failure_propagates:
  assumes "truthy (token req)" "fault w OpRedisGet = Some e"
  shows "validateSession en w req = (Inl e, logCall (RedisGet (cacheKey (token req))) w)"
  using assms by (simp add: validateSession_def redis_get_def)

text \<open>The world whose cache read is rejected.\<close>

theorem cache_read_failure_propagates_witness:
  "truthy (token req_u1) \<and> fault w_cacheDown OpRedisGet = Some cacheReadError \<and>
   validateSession env0 w_cacheDown req_u1 =
     (Inl cacheReadError, logCall (RedisGet (cacheKey (token req_u1))) w_cacheDown)"
proof -
  have h: "truthy (token req_u1)" "fault w_cacheDown OpRedisGet = Some cacheReadError"
    by (simp_all add: scenario_defs js_defs)
  from cache_read_failure_propagates [OF h, of env0] h show ?thesis by blast
qed

lemma provision_frame:
  assumes "provision en w sub = (r, w')"
  shows "kv w' = kv w \<and> now w' = now w \<and> fault w' = fault w"
  using assms
  by (auto simp: provision_def Let_def
           split: sum.splits option.splits if_splits prod.splits
           dest!: syncUser_noevent_frame [rotated] user_findUniqueOrThrow_frame)

lemma scopeCheck_frame:
  assumes "scopeCheck w req u = (r, w')"
  shows "kv w' = kv w \<and> now w' = now w \<and> fault w' = fault w"
  using assms
  by (auto simp: scopeCheck_def
           split: sum.splits option.splits if_splits prod.splits
           dest!: laneMember_findUnique_frame)

lemma valid_validResponse [simp]: "valid (validResponse u sub)"
  by (simp add: validResponse_def)

lemma valid_invalidResponse [simp]: "\<not> valid invalidResponse"
  by (simp add: invalidResponse_def)

lemma validateSession_try_Inl:
  assumes "validateSession_try en w req key = (Inl e, w')"
  shows "kv w' = kv w"
  using assms
  by (auto simp: validateSession_try_def Let_def redis_set_def
           split: sum.splits option.splits if_splits prod.splits
           dest!: user_findUnique_frame provision_frame scopeCheck_frame)

lemma validateSession_try_Inr:
  assumes "validateSession_try en w req key = (Inr r, w')"
  shows "valid r \<and> kv w' = (kv w)(key \<mapsto> (toJsonString en r, now w + 60000)) \<and>
         fault w' = fault w"
  using assms
  by (auto simp: validateSession_try_def Let_def redis_set_def SESSION_CACHE_TTL_def
           split: sum.splits option.splits if_splits prod.splits
           dest!: user_findUnique_frame provision_frame scopeCheck_frame)

lemma validateSession_miss_kv:
  "kv (snd (validateSession_miss en w req key)) = kv w \<or>
   (\<exists>r. fst (validateSession_miss en w req key) = Inr r \<and> valid r \<and>
        kv (snd (validateSession_miss en w req key)) =
          (kv w)(key \<mapsto> (toJsonString en r, now w + 60000)))"
  by (auto simp: validateSession_miss_def split: prod.splits sum.splits
           dest!: validateSession_try_Inl validateSession_try_Inr)

text \<open>
  Claim C10 (only positive results are cached). A run of \<open>validateSession\<close> either
  leaves Redis as it was, or it returns a response \<open>r\<close> with \<open>valid r\<close> and Redis
  differs in one entry: under the fingerprint of the credential, the serialisation of
  that \<open>r\<close>, for 60 seconds. So whenever the outcome is an error or \<open>valid: false\<close>,
  nothing was written.
\<close>

theorem cache_holds_valid_only:
  "kv (snd (validateSession en w req)) = kv w \<or>
   (\<exists>r. fst (validateSession en w req) = Inr r \<and> valid r \<and>
        kv (snd (validateSession en w req)) =
          (kv w)(cacheKey (token req) \<mapsto> (toJsonString en r, now w + 60000)))"
proof (cases "truthy (token req) \<and> fault w OpRedisGet = None \<and>
              \<not> truthyOpt (live w (cacheKey (token req)))")
  case True
  then have "validateSession en w req =
      validateSession_miss en (logCall (RedisGet (cacheKey (token req))) w) req
        (cacheKey (token req))"
    by (auto simp: validateSession_def redis_get_def truthyOpt_def split: option.splits)
  then show ?thesis
    using validateSession_miss_kv
      [of en "logCall (RedisGet (cacheKey (token req))) w" req "cacheKey (token req)"]
    by simp
next
  case False
  then have "kv (snd (validateSession en w req)) = kv w"
    by (auto simp: validateSession_def redis_get_def truthyOpt_def split: option.splits)
  then show ?thesis ..
qed

text \<open>
  A forbidden outcome (turned into an internal error) and a failed verification
  (\<open>valid: false\<close>): after either, Redis is as before.
\<close>

theorem cache_holds_valid_only_witness:
  "fst (validateSession env0 w_banned req_u1) =
     Inl (ConnectError ''Internal Auth Error'' Internal) \<and>
   kv (snd (validateSession env0 w_banned req_u1)) = kv w_banned \<and>
   fst (validateSession env0 w_empty \<lparr>token = ''bad'', requiredScope = []\<rparr>) =
     Inr invalidResponse \<and>
   kv (snd (validateSession env0 w_empty \<lparr>token = ''bad'', requiredScope = []\<rparr>)) =
     kv w_empty"
proof -
  have a: "fst (validateSession env0 w_banned req_u1) =
             Inl (ConnectError ''Internal Auth Error'' Internal)"
    by (simp add: scenario_defs store_defs handler_defs js_defs)
  have b: "fst (validateSession env0 w_empty \<lparr>token = ''bad'', requiredScope = []\<rparr>) =
             Inr invalidResponse"
    by (simp add: scenario_defs store_defs handler_defs js_defs)
  from cache_holds_valid_only [of env0 w_banned req_u1] a
  have c: "kv (snd (validateSession env0 w_banned req_u1)) = kv w_banned"
    by auto
  from cache_holds_valid_only [of env0 w_empty "\<lparr>token = ''bad'', requiredScope = []\<rparr>"] b
  have d: "kv (snd (validateSession env0 w_empty \<lparr>token = ''bad'', requiredScope = []\<rparr>)) =
             kv w_empty"
    by auto
  from a b c d show ?thesis by blast
qed

text \<open>
  A miss that ends \<open>valid: true\<close> writes what a later call reads: any request whose
  credential has the same fingerprint, made less than 60 seconds after the write, is
  answered with the same response and one read of the cache.
\<close>

lemma validateSession_write_then_hit:
  assumes ok: "fst (validateSession en w req) = Inr r" and v: "valid r"
    and miss: "\<not> truthyOpt (live w (cacheKey (token req)))"
    and codec: "truthy (toJsonString en r)" "fromJsonString en (toJsonString en r) = Inr r"
    and t: "t < now w + 60000"
    and same: "truthy (token req')" "cacheKey (token req') = cacheKey (token req)"
  shows "validateSession en ((snd (validateSession en w req))\<lparr>now := t\<rparr>) req' =
           (Inr r, logCall (RedisGet (cacheKey (token req)))
                     ((snd (validateSession en w req))\<lparr>now := t\<rparr>))"
proof -
  let ?k = "cacheKey (token req)"
  let ?w0 = "logCall (RedisGet ?k) w"
  have tok: "truthy (token req)" and get: "fault w OpRedisGet = None"
    using ok by (auto simp: validateSession_def redis_get_def split: if_splits option.splits)
  have run: "validateSession en w req = validateSession_miss en ?w0 req ?k"
    using tok get miss
    by (auto simp: validateSession_def redis_get_def truthyOpt_def split: option.splits)
  obtain res w1 where try1: "validateSession_try en ?w0 req ?k = (res, w1)"
    by (cases "validateSession_try en ?w0 req ?k")
  have "res = Inr r"
    using ok v run try1
    by (cases res) (auto simp: validateSession_miss_def validateSession_catch_def Let_def
                         split: if_splits)
  with try1 have w1: "validateSession en w req = (Inr r, w1)"
    and kv1: "kv w1 = (kv w)(?k \<mapsto> (toJsonString en r, now w + 60000))"
    and f1: "fault w1 = fault w"
    using run validateSession_try_Inr [of en ?w0 req ?k r w1]
    by (simp_all add: validateSession_miss_def)
  have "live (w1\<lparr>now := t\<rparr>) (cacheKey (token req')) = Some (toJsonString en r)"
    using kv1 t same(2) by (simp add: live_def)
  moreover have "fault (w1\<lparr>now := t\<rparr>) OpRedisGet = None"
    using f1 get by simp
  ultimately have "validateSession en (w1\<lparr>now := t\<rparr>) req' =
      (fromJsonString en (toJsonString en r),
       logCall (RedisGet (cacheKey (token req'))) (w1\<lparr>now := t\<rparr>))"
    using validateSession_hit [OF same(1) _ _ codec(1)] by blast
  then show ?thesis
    using w1 codec(2) same(2) by simp
qed

subsection \<open>The session validator: errors thrown inside the guarded block\<close>

text \<open>
  The messages of the three errors that the guarded block throws on purpose contain
  neither \<^verbatim>\<open>expired\<close> nor \<^verbatim>\<open>invalid\<close>, so the \<^verbatim>\<open>catch\<close> block maps each of them to
  \<open>Internal\<close>.
\<close>

lemma catch_suspended:
  "validateSession_catch (ConnectError ''User is globally suspended'' PermissionDenied) =
     Inl (ConnectError ''Internal Auth Error'' Internal)"
  by (simp add: validateSession_catch_def startsWith_def)

lemma catch_no_email:
  "validateSession_catch (ConnectError ''User has no email'' FailedPrecondition) =
     Inl (ConnectError ''Internal Auth Error'' Internal)"
  by (simp add: validateSession_catch_def startsWith_def)

lemma catch_lane_banned:
  "validateSession_catch (ConnectError ''You are banned from this lane'' PermissionDenied) =
     Inl (ConnectError ''Internal Auth Error'' Internal)"
  by (simp add: validateSession_catch_def startsWith_def)

text \<open>
  Every call that misses the cache, verifies and finds a record with \<open>deletedAt\<close> set
  ends with \<open>Internal\<close>.
\<close>

lemma suspended_user_gets_internal:
  assumes "truthy (token req)" "fault w OpRedisGet = None"
    and "\<not> truthyOpt (live w (cacheKey (token req)))"
    and "verifyToken en (token req) = Inr sub"
    and "fault w OpUserRead = None" "users w sub = Some u" "deletedAt u \<noteq> None"
  shows "fst (validateSession en w req) = Inl (ConnectError ''Internal Auth Error'' Internal)"
  using assms
  by (auto simp: validateSession_def redis_get_def validateSession_miss_def
        validateSession_try_def user_findUnique_def catch_suspended truthyOpt_def
        split: option.splits)

text \<open>
  Every call that misses the cache, verifies, finds no record and fetches a profile
  without a primary email ends with \<open>Internal\<close>.
\<close>

lemma no_email_gets_internal:
  assumes "truthy (token req)" "fault w OpRedisGet = None"
    and "\<not> truthyOpt (live w (cacheKey (token req)))"
    and "verifyToken en (token req) = Inr sub"
    and "fault w OpUserRead = None" "users w sub = None"
    and "getUser en sub = Inr profile" "\<not> truthyOpt (primaryEmailOf profile)"
  shows "fst (validateSession en w req) = Inl (ConnectError ''Internal Auth Error'' Internal)"
  using assms
  by (auto simp: validateSession_def redis_get_def validateSession_miss_def
        validateSession_try_def user_findUnique_def provision_def catch_no_email
        truthyOpt_def Let_def
        split: option.splits)

text \<open>
  Claim C1 reads: a call that reaches the record checks with a record whose
  \<open>deletedAt\<close> is set ends forbidden (\<open>PermissionDenied\<close>), not with an internal error.
  The handler throws \<open>PermissionDenied\<close> inside its own \<^verbatim>\<open>try\<close> block; the \<^verbatim>\<open>catch\<close>
  finds neither \<^verbatim>\<open>expired\<close> nor \<^verbatim>\<open>invalid\<close> in the message and throws \<open>Internal\<close>
  instead (\<open>suspended_user_gets_internal\<close> above, for every such call). Here the run
  on a world where \<open>u1\<close> is soft-deleted: cache miss, token verified, record found,
  and the outcome is \<open>Internal\<close>.
\<close>

theorem suspended_user_internal_error:
  "users w_banned ''u1'' = Some (alice\<lparr>deletedAt := Some 900\<rparr>) \<and>
   verifyToken env0 (token req_u1) = Inr ''u1'' \<and>
   validateSession env0 w_banned req_u1 =
     (Inl (ConnectError ''Internal Auth Error'' Internal),
      w_banned\<lparr>calls := [RedisGet ''session:tok-u1'', VerifyToken ''tok-u1'',
                            UserFindUnique ''u1'']\<rparr>)"
  by (simp add: scenario_defs store_defs handler_defs js_defs)

text \<open>
  Claim C2 (Scenario D) reads: a verified subject with no record and no primary email
  on the profile ends with \<open>FailedPrecondition\<close>, not with an internal error. The same
  \<^verbatim>\<open>catch\<close> swallows the \<open>FailedPrecondition\<close> that provisioning throws
  (\<open>no_email_gets_internal\<close> above). Here the run for \<open>u2\<close> on the empty world: the
  outcome is \<open>Internal\<close>.
\<close>

theorem no_email_internal_error:
  "users w_empty ''u2'' = None \<and>
   verifyToken env0 (token req_u2) = Inr ''u2'' \<and>
   map_sum id primaryEmailOf (getUser env0 ''u2'') = Inr None \<and>
   validateSession env0 w_empty req_u2 =
     (Inl (ConnectError ''Internal Auth Error'' Internal),
      w_empty\<lparr>calls := [RedisGet ''session:tok-u2'', VerifyToken ''tok-u2'',
                           UserFindUnique ''u2'', ClerkGetUser ''u2'']\<rparr>)"
  by (simp add: scenario_defs store_defs handler_defs js_defs)

end
